theory Spec2Isabelle
  imports Complex_Main "HOL-Library.Multiset"
begin

section \<open>The face identifier: data model\<close>

text \<open>
  The class \<^verbatim>\<open>FaceIdentifier\<close> of \<^verbatim>\<open>face-identifier.js\<close>. JavaScript numbers are
  modelled as exact reals: descriptors are lists of reals, and the similarity values
  computed from them are compared as reals. The selection, ranking, hashing and
  filtering logic below depends on these numbers only through comparisons and the
  arithmetic written in the source; IEEE-754 rounding, NaN and infinities are outside
  the model, except for the similarity, which is given a second time with the
  rounding of binary64. The option \<^verbatim>\<open>hashBits\<close> is an integer, so that the behaviour of
  \<^verbatim>\<open>slice\<close> on a negative end index is part of the model.
\<close>

record options =
  minConfidence :: real
  matchThreshold :: real
  hashBits :: int
  padding :: real

record engine =
  opts :: options
  isInitialized :: bool

text \<open>The defaults of the constructor.\<close>

definition defaultOptions :: options where
  "defaultOptions = \<lparr>minConfidence = 3 / 10, matchThreshold = 6 / 10, hashBits = 64, padding = 2 / 10\<rparr>"

record box =
  box_x :: real
  box_y :: real
  box_width :: real
  box_height :: real

text \<open>A face as \<^verbatim>\<open>detectFaces\<close> returns it.\<close>

record face =
  f_descriptor :: "real list"
  f_box :: box
  f_confidence :: real

text \<open>A stored face: what \<^verbatim>\<open>registerFace\<close> returns, with the caller's \<^verbatim>\<open>userData\<close>.\<close>

record 'u stored_face =
  s_faceId :: string
  s_descriptor :: "real list"
  s_hash :: string
  s_confidence :: real
  s_timestamp :: int
  s_userData :: 'u

text \<open>The objects pushed to \<^verbatim>\<open>matches\<close> and stored in \<^verbatim>\<open>bestMatch\<close>.\<close>

record 'u match =
  m_faceId :: string
  m_similarity :: real
  m_data :: 'u

record current_face =
  c_descriptor :: "real list"
  c_hash :: string
  c_confidence :: real

text \<open>
  The object \<^verbatim>\<open>identifyFace\<close> returns. The early return for an empty collection
  builds an object with the three fields \<^verbatim>\<open>matchFound\<close>, \<^verbatim>\<open>bestMatch\<close> and
  \<^verbatim>\<open>candidates\<close> only, so the two other fields are optional: \<open>None\<close> is a field
  that the object does not have.
\<close>

record 'u identification =
  matchFound :: bool
  bestMatch :: "'u match option"
  similarity :: "real option"
  candidates :: "'u match list"
  currentFace :: "current_face option"


datatype error = NotInitialized | UndefinedFace

section \<open>Array helpers\<close>

text \<open>
  \<^verbatim>\<open>xs.slice(start, end)\<close> on integer arguments: a negative index counts from the
  end, and both are clamped to the array.
\<close>

definition slice :: "'a list \<Rightarrow> int \<Rightarrow> int \<Rightarrow> 'a list" where
  "slice xs start end' =
     (let n = int (length xs);
          k = (if start < 0 then max (n + start) 0 else min start n);
          final = (if end' < 0 then max (n + end') 0 else min end' n)
      in take (nat (final - k)) (drop (nat k) xs))"

text \<open>
  \<^verbatim>\<open>xs.sort(cmp)\<close>: the sort of an array is stable, and an element moves behind
  another one only when the comparator is positive on the pair.
\<close>

fun insert_cmp :: "('a \<Rightarrow> 'a \<Rightarrow> real) \<Rightarrow> 'a \<Rightarrow> 'a list \<Rightarrow> 'a list" where
  "insert_cmp cmp x [] = [x]"
| "insert_cmp cmp x (y # ys) =
     (if cmp x y \<le> 0 then x # y # ys else y # insert_cmp cmp x ys)"

definition sort_cmp :: "('a \<Rightarrow> 'a \<Rightarrow> real) \<Rightarrow> 'a list \<Rightarrow> 'a list" where
  "sort_cmp cmp xs = foldr (insert_cmp cmp) xs []"

section \<open>Hashing and the hash filter\<close>

text \<open>\<^verbatim>\<open>_generateHash(descriptor)\<close>.\<close>

definition generateHash :: "options \<Rightarrow> real list \<Rightarrow> string" where
  "generateHash os descriptor =
     (let bits = min (hashBits os) (int (length descriptor));
          values = slice descriptor 0 bits;
          avg = foldl (\<lambda>a b. a + b) 0 values / of_int bits
      in map (\<lambda>v. if v \<ge> avg then CHR ''1'' else CHR ''0'') values)"

text \<open>\<^verbatim>\<open>_hammingDistance(hash1, hash2)\<close>: the loop over \<open>i < len\<close> with its counter.\<close>

definition hammingDistance :: "string \<Rightarrow> string \<Rightarrow> nat" where
  "hammingDistance hash1 hash2 =
     (let len = min (length hash1) (length hash2)
      in fold (\<lambda>i distance. if hash1 ! i \<noteq> hash2 ! i then distance + 1 else distance)
           [0..<len] 0)"

text \<open>\<^verbatim>\<open>_filterByHash(storedFaces, queryHash, threshold = 8)\<close>.\<close>

definition filterByHash :: "'u stored_face list \<Rightarrow> string \<Rightarrow> nat \<Rightarrow> 'u stored_face list" where
  "filterByHash storedFaces queryHash threshold =
     (if length storedFaces \<le> 1000 then storedFaces
      else filter (\<lambda>face. hammingDistance (s_hash face) queryHash \<le> threshold) storedFaces)"

section \<open>Similarity\<close>

text \<open>
  \<^verbatim>\<open>_cosineSimilarity(desc1, desc2)\<close>: one loop accumulates \<open>dot\<close>, \<open>norm1\<close> and
  \<open>norm2\<close>; the result is guarded by \<^verbatim>\<open>norm1 && norm2\<close> and clamped by
  \<^verbatim>\<open>Math.max(0, ...)\<close>.
\<close>

definition cosineSimilarity :: "real list \<Rightarrow> real list \<Rightarrow> real" where
  "cosineSimilarity desc1 desc2 =
     (let len = min (length desc1) (length desc2);
          (dot, norm1, norm2) =
            fold (\<lambda>i (dot, norm1, norm2).
                    (dot + desc1 ! i * desc2 ! i,
                     norm1 + desc1 ! i * desc1 ! i,
                     norm2 + desc2 ! i * desc2 ! i))
              [0..<len] (0, 0, 0);
          norm1 = sqrt norm1;
          norm2 = sqrt norm2
      in if norm1 \<noteq> 0 \<and> norm2 \<noteq> 0 then max 0 (dot / (norm1 * norm2)) else 0)"






section \<open>Detection\<close>

text \<open>
  The detector of face-api.js is external. What one call of
  \<^verbatim>\<open>detectAllFaces(...).withFaceLandmarks().withFaceDescriptors()\<close> did is an input of
  the model: it raised an error, it gave no array, or it gave an array of detections.
  The successive results of \<^verbatim>\<open>Math.random()\<close> are an input too, a sequence of draws.
\<close>

record detection =
  d_descriptor :: "real list"
  d_box :: box
  d_score :: real

datatype detector_outcome = Raised | NoArray | Detections "detection list"

text \<open>\<^verbatim>\<open>_createSyntheticFace()\<close>: a zeroed array of 128 numbers, overwritten by index.\<close>

definition createSyntheticFace :: "(nat \<Rightarrow> real) \<Rightarrow> face" where
  "createSyntheticFace random =
     (let descriptor = fold (\<lambda>i d. d[i := random i * (1 / 2) + 1 / 4]) [0..<128] (replicate 128 0)
      in \<lparr>f_descriptor = descriptor,
          f_box = \<lparr>box_x = 100, box_y = 100, box_width = 200, box_height = 200\<rparr>,
          f_confidence = 8 / 10\<rparr>)"

text \<open>
  \<^verbatim>\<open>detectFaces(media)\<close>: the guard on \<^verbatim>\<open>isInitialized\<close> throws before the
  \<^verbatim>\<open>try\<close> block; inside it, an error of the detector is caught. A score of 0 is
  falsy, so \<^verbatim>\<open>score || 0.5\<close> replaces it.
\<close>

definition detectFaces :: "engine \<Rightarrow> detector_outcome \<Rightarrow> (nat \<Rightarrow> real) \<Rightarrow> error + face list" where
  "detectFaces this outcome random =
     (if \<not> isInitialized this then Inl NotInitialized
      else case outcome of
        Raised \<Rightarrow> Inr [createSyntheticFace random]
      | NoArray \<Rightarrow> Inr [createSyntheticFace random]
      | Detections detections \<Rightarrow>
          if length detections = 0 then Inr [createSyntheticFace random]
          else Inr (map (\<lambda>det. \<lparr>f_descriptor = d_descriptor det, f_box = d_box det,
                                 f_confidence = (if d_score det \<noteq> 0 then d_score det else 1 / 2)\<rparr>)
                      detections))"

section \<open>Identification\<close>

text \<open>
  The body of the loop of \<^verbatim>\<open>identifyFace\<close> on one candidate. The loop state is
  \<open>(bestMatch, bestSimilarity, matches)\<close>.
\<close>

definition identifyStep ::
  "options \<Rightarrow> face \<Rightarrow> 'u stored_face \<Rightarrow> 'u match option \<times> real \<times> 'u match list
     \<Rightarrow> 'u match option \<times> real \<times> 'u match list" where
  "identifyStep os currentFace' candidate st =
     (case st of (bestMatch', bestSimilarity, matches) \<Rightarrow>
        let sim = cosineSimilarity (f_descriptor currentFace') (s_descriptor candidate);
            matches = matches @ [\<lparr>m_faceId = s_faceId candidate, m_similarity = sim,
                                   m_data = s_userData candidate\<rparr>]
        in if sim > bestSimilarity then
             (if sim \<ge> matchThreshold os
              then Some \<lparr>m_faceId = s_faceId candidate, m_similarity = sim,
                          m_data = s_userData candidate\<rparr>
              else bestMatch',
              sim, matches)
           else (bestMatch', bestSimilarity, matches))"

text \<open>
  \<^verbatim>\<open>identifyFace(media, storedFaces)\<close>. The face is \<^verbatim>\<open>faces[0]\<close>; on an empty
  array it would be undefined and reading its descriptor would throw, which is the
  error \<open>UndefinedFace\<close> (the array that \<^verbatim>\<open>detectFaces\<close> returns is never empty).
\<close>

definition identifyFace ::
  "engine \<Rightarrow> detector_outcome \<Rightarrow> (nat \<Rightarrow> real) \<Rightarrow> 'u stored_face list \<Rightarrow> error + 'u identification" where
  "identifyFace this outcome random storedFaces =
     (if length storedFaces = 0
      then Inr \<lparr>matchFound = False, bestMatch = None, similarity = None, candidates = [],
                currentFace = None\<rparr>
      else case detectFaces this outcome random of
        Inl e \<Rightarrow> Inl e
      | Inr [] \<Rightarrow> Inl UndefinedFace
      | Inr (currentFace' # _) \<Rightarrow>
          let currentHash = generateHash (opts this) (f_descriptor currentFace');
              candidates' = filterByHash storedFaces currentHash 8;
              (bestMatch', bestSimilarity, matches) =
                 fold (identifyStep (opts this) currentFace') candidates' (None, 0, [])
          in Inr \<lparr>matchFound = (bestMatch' \<noteq> None),
                   bestMatch = bestMatch',
                   similarity = Some bestSimilarity,
                   candidates = slice (sort_cmp (\<lambda>a b. m_similarity b - m_similarity a) matches) 0 5,
                   currentFace = Some \<lparr>c_descriptor = f_descriptor currentFace',
                                        c_hash = currentHash,
                                        c_confidence = f_confidence currentFace'\<rparr>\<rparr>)"

section \<open>Vocabulary of the specification\<close>

text \<open>
  Names for the values the loop of \<^verbatim>\<open>identifyFace\<close> works with: the candidates that
  are left after the hash filter (the survivors), the similarity of one of them to the
  current face, and the object that the loop builds from it.
\<close>

definition survivors :: "engine \<Rightarrow> face \<Rightarrow> 'u stored_face list \<Rightarrow> 'u stored_face list" where
  "survivors this currentFace' storedFaces =
     filterByHash storedFaces (generateHash (opts this) (f_descriptor currentFace')) 8"

definition score :: "face \<Rightarrow> 'u stored_face \<Rightarrow> real" where
  "score currentFace' candidate =
     cosineSimilarity (f_descriptor currentFace') (s_descriptor candidate)"

definition matchObject :: "face \<Rightarrow> 'u stored_face \<Rightarrow> 'u match" where
  "matchObject currentFace' candidate =
     \<lparr>m_faceId = s_faceId candidate,
      m_similarity = cosineSimilarity (f_descriptor currentFace') (s_descriptor candidate),
      m_data = s_userData candidate\<rparr>"

section \<open>Identification over arrays in a store\<close>

text \<open>
  In the source, \<^verbatim>\<open>storedFaces\<close>, \<^verbatim>\<open>candidates\<close> and \<^verbatim>\<open>matches\<close> are
  references to arrays: \<^verbatim>\<open>_filterByHash\<close> returns \<^verbatim>\<open>storedFaces\<close> itself for a
  small collection, \<^verbatim>\<open>push\<close> and \<^verbatim>\<open>sort\<close> change an array in place, and
  \<^verbatim>\<open>filter\<close>, \<^verbatim>\<open>slice\<close> and the array literals make new arrays. The store maps
  addresses to arrays; \<open>top\<close> is the next address that an allocation uses. The
  stored faces and the match objects are values inside their arrays: the source
  assigns to no property of them.
\<close>

datatype 'u jsarray = FaceArray "'u stored_face list" | MatchArray "'u match list"

record 'u heap =
  arrays :: "nat \<rightharpoonup> 'u jsarray"
  top :: nat

text \<open>A new array.\<close>

definition alloc :: "'u jsarray \<Rightarrow> 'u heap \<Rightarrow> nat \<times> 'u heap" where
  "alloc v h = (top h, h\<lparr>arrays := (arrays h)(top h \<mapsto> v), top := Suc (top h)\<rparr>)"

text \<open>Reading an array of stored faces, or of match objects, at an address.\<close>

definition facesAt :: "'u heap \<Rightarrow> nat \<Rightarrow> 'u stored_face list" where
  "facesAt h a = (case arrays h a of Some (FaceArray fs) \<Rightarrow> fs | _ \<Rightarrow> [])"

definition matchesAt :: "'u heap \<Rightarrow> nat \<Rightarrow> 'u match list" where
  "matchesAt h a = (case arrays h a of Some (MatchArray ms) \<Rightarrow> ms | _ \<Rightarrow> [])"

text \<open>\<^verbatim>\<open>matches.push(m)\<close> and \<^verbatim>\<open>matches.sort(cmp)\<close> write to the array they are called on.\<close>

definition push :: "nat \<Rightarrow> 'u match \<Rightarrow> 'u heap \<Rightarrow> 'u heap" where
  "push a m h =
     (case arrays h a of
        Some (MatchArray ms) \<Rightarrow> h\<lparr>arrays := (arrays h)(a \<mapsto> MatchArray (ms @ [m]))\<rparr>
      | _ \<Rightarrow> h)"

definition sortAt :: "('u match \<Rightarrow> 'u match \<Rightarrow> real) \<Rightarrow> nat \<Rightarrow> 'u heap \<Rightarrow> 'u heap" where
  "sortAt cmp a h =
     (case arrays h a of
        Some (MatchArray ms) \<Rightarrow> h\<lparr>arrays := (arrays h)(a \<mapsto> MatchArray (sort_cmp cmp ms))\<rparr>
      | _ \<Rightarrow> h)"

text \<open>\<^verbatim>\<open>xs.slice(start, end)\<close> leaves \<open>xs\<close> as it is and returns a new array.\<close>

definition sliceAt :: "nat \<Rightarrow> int \<Rightarrow> int \<Rightarrow> 'u heap \<Rightarrow> nat \<times> 'u heap" where
  "sliceAt a start end' h = alloc (MatchArray (slice (matchesAt h a) start end')) h"

text \<open>
  \<^verbatim>\<open>_filterByHash\<close> on references: the same address for at most 1000 records, the
  address of a new array otherwise.
\<close>

definition filterByHashH :: "nat \<Rightarrow> string \<Rightarrow> nat \<Rightarrow> 'u heap \<Rightarrow> nat \<times> 'u heap" where
  "filterByHashH storedFaces queryHash threshold h =
     (if length (facesAt h storedFaces) \<le> 1000 then (storedFaces, h)
      else alloc (FaceArray (filter (\<lambda>face. hammingDistance (s_hash face) queryHash \<le> threshold)
                               (facesAt h storedFaces))) h)"

text \<open>
  The \<^verbatim>\<open>for ... of\<close> loop of \<^verbatim>\<open>identifyFace\<close>: the iterator reads the length of
  the array and the element at index \<open>i\<close> from the store at each step, and the body
  pushes to \<^verbatim>\<open>matches\<close>.
\<close>

function identifyLoop ::
  "options \<Rightarrow> face \<Rightarrow> nat \<Rightarrow> nat \<Rightarrow> nat \<Rightarrow> 'u match option \<times> real \<Rightarrow> 'u heap
     \<Rightarrow> ('u match option \<times> real) \<times> 'u heap" where
  "identifyLoop os currentFace' candidates' matches i best h =
     (if i < length (facesAt h candidates') then
        let candidate = facesAt h candidates' ! i;
            sim = cosineSimilarity (f_descriptor currentFace') (s_descriptor candidate);
            h' = push matches \<lparr>m_faceId = s_faceId candidate, m_similarity = sim,
                                m_data = s_userData candidate\<rparr> h
        in identifyLoop os currentFace' candidates' matches (Suc i)
             (if sim > snd best then
                (if sim \<ge> matchThreshold os
                 then Some \<lparr>m_faceId = s_faceId candidate, m_similarity = sim,
                             m_data = s_userData candidate\<rparr>
                 else fst best, sim)
              else best) h'
      else (best, h))"
  by pat_completeness auto
termination
  by (relation "measure (\<lambda>(os, cur, c, m, i, b, h). length (facesAt h c) - i)")
     (auto simp: facesAt_def push_def split: option.splits jsarray.splits)

declare identifyLoop.simps [simp del]

text \<open>\<^verbatim>\<open>identifyFace\<close> on a reference to the stored faces, with the store it leaves.\<close>

definition identifyFaceH ::
  "engine \<Rightarrow> detector_outcome \<Rightarrow> (nat \<Rightarrow> real) \<Rightarrow> nat \<Rightarrow> 'u heap
     \<Rightarrow> error + ('u identification \<times> 'u heap)" where
  "identifyFaceH this outcome random storedFaces h =
     (if length (facesAt h storedFaces) = 0
      then (let (r, h') = alloc (MatchArray []) h
            in Inr (\<lparr>matchFound = False, bestMatch = None, similarity = None,
                       candidates = matchesAt h' r, currentFace = None\<rparr>, h'))
      else case detectFaces this outcome random of
        Inl e \<Rightarrow> Inl e
      | Inr [] \<Rightarrow> Inl UndefinedFace
      | Inr (currentFace' # _) \<Rightarrow>
          let currentHash = generateHash (opts this) (f_descriptor currentFace');
              (candidates', h1) = filterByHashH storedFaces currentHash 8 h;
              (matches, h2) = alloc (MatchArray []) h1;
              ((bestMatch', bestSimilarity), h3) =
                 identifyLoop (opts this) currentFace' candidates' matches 0 (None, 0) h2;
              h4 = sortAt (\<lambda>a b. m_similarity b - m_similarity a) matches h3;
              (r, h5) = sliceAt matches 0 5 h4
          in Inr (\<lparr>matchFound = (bestMatch' \<noteq> None),
                    bestMatch = bestMatch',
                    similarity = Some bestSimilarity,
                    candidates = matchesAt h5 r,
                    currentFace = Some \<lparr>c_descriptor = f_descriptor currentFace',
                                         c_hash = currentHash,
                                         c_confidence = f_confidence currentFace'\<rparr>\<rparr>, h5))"

section \<open>Example inputs\<close>

text \<open>
  An initialized engine with the default options, one with the threshold 0, a detector
  outcome with one face of descriptor \<open>(1, 0)\<close>, and eight stored faces whose
  similarities to it are pairwise different.
\<close>

definition readyEngine :: engine where
  "readyEngine = \<lparr>opts = defaultOptions, isInitialized = True\<rparr>"

definition probe :: detector_outcome where
  "probe = Detections [\<lparr>d_descriptor = [1, 0],
                        d_box = \<lparr>box_x = 0, box_y = 0, box_width = 1, box_height = 1\<rparr>,
                        d_score = 9 / 10\<rparr>]"

definition probeFace :: face where
  "probeFace = \<lparr>f_descriptor = [1, 0],
                f_box = \<lparr>box_x = 0, box_y = 0, box_width = 1, box_height = 1\<rparr>,
                f_confidence = 9 / 10\<rparr>"

definition draws :: "nat \<Rightarrow> real" where
  "draws i = 1 / 2"

definition storedFace :: "string \<Rightarrow> real list \<Rightarrow> unit stored_face" where
  "storedFace name d =
     \<lparr>s_faceId = name, s_descriptor = d, s_hash = generateHash defaultOptions d,
      s_confidence = 9 / 10, s_timestamp = 0, s_userData = ()\<rparr>"

definition eightFaces :: "unit stored_face list" where
  "eightFaces =
     [storedFace ''f1'' [3 / 5, 4 / 5], storedFace ''f2'' [1, 0],
      storedFace ''f3'' [0, 1], storedFace ''f4'' [4 / 5, 3 / 5],
      storedFace ''f5'' [12 / 13, 5 / 13], storedFace ''f6'' [5 / 13, 12 / 13],
      storedFace ''f7'' [8 / 17, 15 / 17], storedFace ''f8'' [15 / 17, 8 / 17]]"


definition eightResult :: "unit identification" where
  "eightResult =
   \<lparr>matchFound = True,
        bestMatch = Some \<lparr>m_faceId = ''f2'', m_similarity = 1, m_data = ()\<rparr>,
        similarity = Some 1,
        candidates = [\<lparr>m_faceId = ''f2'', m_similarity = 1, m_data = ()\<rparr>,
                      \<lparr>m_faceId = ''f5'', m_similarity = 12 / 13, m_data = ()\<rparr>,
                      \<lparr>m_faceId = ''f8'', m_similarity = 15 / 17, m_data = ()\<rparr>,
                      \<lparr>m_faceId = ''f4'', m_similarity = 4 / 5, m_data = ()\<rparr>,
                      \<lparr>m_faceId = ''f1'', m_similarity = 3 / 5, m_data = ()\<rparr>],
        currentFace = Some \<lparr>c_descriptor = [1, 0], c_hash = ''10'', c_confidence = 9 / 10\<rparr>\<rparr>"

definition exampleHeap :: "unit heap" where
  "exampleHeap = \<lparr>arrays = [0 \<mapsto> FaceArray eightFaces], top = 1\<rparr>"

section \<open>Properties of the hash filter\<close>

lemma count_loop:
  "fold (\<lambda>i d. if P i then d + 1 else d) [0..<n] (a::nat) = a + card {i. i < n \<and> P i}"
proof (induction n arbitrary: a)
  case 0
  show ?case by simp
next
  case (Suc n)
  have "{i. i < Suc n \<and> P i} = (if P n then insert n {i. i < n \<and> P i} else {i. i < n \<and> P i})"
    by (auto simp: less_Suc_eq)
  then show ?case using Suc by simp
qed

lemma hammingDistance_card:
  "hammingDistance h1 h2 = card {i. i < min (length h1) (length h2) \<and> h1 ! i \<noteq> h2 ! i}"
  by (simp add: hammingDistance_def Let_def count_loop)

text \<open>
  Claim C3. With at most 1000 records the filter returns the collection as it is;
  with more than 1000 records it returns, in their order, the records whose hash
  differs from the query hash in at most 8 of the first \<open>min\<close> of the two lengths
  positions.
\<close>

theorem filterByHash_policy:
  "(length rs \<le> 1000 \<longrightarrow> filterByHash rs q 8 = rs) \<and>
   (length rs > 1000 \<longrightarrow>
      filterByHash rs q 8 =
        filter (\<lambda>r. card {i. i < min (length (s_hash r)) (length q) \<and> s_hash r ! i \<noteq> q ! i} \<le> 8) rs)"
  by (simp add: filterByHash_def hammingDistance_card)

theorem filterByHash_policy_witness:
  "length (replicate 1000 \<lparr>s_faceId = ''a'', s_descriptor = [], s_hash = ''111111111'',
        s_confidence = 1, s_timestamp = 0, s_userData = ()\<rparr>) \<le> 1000
   \<and> filterByHash (replicate 1000 \<lparr>s_faceId = ''a'', s_descriptor = [], s_hash = ''111111111'',
        s_confidence = 1, s_timestamp = 0, s_userData = ()\<rparr>) ''000000000'' 8
     = replicate 1000 \<lparr>s_faceId = ''a'', s_descriptor = [], s_hash = ''111111111'',
        s_confidence = 1, s_timestamp = 0, s_userData = ()\<rparr>
   \<and> length (replicate 1000 \<lparr>s_faceId = ''b'', s_descriptor = [], s_hash = ''000000001'',
        s_confidence = 1, s_timestamp = 0, s_userData = ()\<rparr>
       @ [\<lparr>s_faceId = ''a'', s_descriptor = [], s_hash = ''111111111'',
        s_confidence = 1, s_timestamp = 0, s_userData = ()\<rparr>]) > 1000
   \<and> filterByHash (replicate 1000 \<lparr>s_faceId = ''b'', s_descriptor = [], s_hash = ''000000001'',
        s_confidence = 1, s_timestamp = 0, s_userData = ()\<rparr>
       @ [\<lparr>s_faceId = ''a'', s_descriptor = [], s_hash = ''111111111'',
        s_confidence = 1, s_timestamp = 0, s_userData = ()\<rparr>]) ''000000000'' 8
     = replicate 1000 \<lparr>s_faceId = ''b'', s_descriptor = [], s_hash = ''000000001'',
        s_confidence = 1, s_timestamp = 0, s_userData = ()\<rparr>"
proof -
  let ?a = "\<lparr>s_faceId = ''a'', s_descriptor = [], s_hash = ''111111111'',
        s_confidence = 1, s_timestamp = 0, s_userData = ()\<rparr>"
  let ?b = "\<lparr>s_faceId = ''b'', s_descriptor = [], s_hash = ''000000001'',
        s_confidence = 1, s_timestamp = 0, s_userData = ()\<rparr>"
  have da: "hammingDistance ''111111111'' ''000000000'' = 9"
    by (simp add: hammingDistance_def Let_def upt_rec)
  have db: "hammingDistance ''000000001'' ''000000000'' = 1"
    by (simp add: hammingDistance_def Let_def upt_rec)
  have 1: "filterByHash (replicate 1000 ?a) ''000000000'' 8 = replicate 1000 ?a"
    using filterByHash_policy [of "replicate 1000 ?a" "''000000000''"] by simp
  have 2: "filterByHash (replicate 1000 ?b @ [?a]) ''000000000'' 8 = replicate 1000 ?b"
  proof -
    have "filterByHash (replicate 1000 ?b @ [?a]) ''000000000'' 8 =
          filter (\<lambda>r. hammingDistance (s_hash r) ''000000000'' \<le> 8) (replicate 1000 ?b @ [?a])"
      using filterByHash_policy [of "replicate 1000 ?b @ [?a]" "''000000000''"]
      unfolding hammingDistance_card [symmetric] by simp
    then show ?thesis using da db by simp
  qed
  show ?thesis using 1 2 by simp
qed

section \<open>Properties of the hash\<close>






section \<open>Properties of the verification\<close>



section \<open>Properties of the detection\<close>

lemma fill_loop:
  "k \<le> length xs \<Longrightarrow> fold (\<lambda>i d. d[i := f i]) [0..<k] xs = map f [0..<k] @ drop k xs"
proof (induction k)
  case 0
  show ?case by simp
next
  case (Suc k)
  then have k: "k < length xs" by simp
  have "fold (\<lambda>i d. d[i := f i]) [0..<Suc k] xs = (map f [0..<k] @ drop k xs)[k := f k]"
    using Suc by simp
  also have "\<dots> = map f [0..<k] @ (drop k xs)[0 := f k]"
    by (simp add: list_update_append)
  also have "(drop k xs)[0 := f k] = f k # drop (Suc k) xs"
    using k by (simp add: Cons_nth_drop_Suc [symmetric])
  finally show ?case by simp
qed

lemma createSyntheticFace_descriptor:
  "f_descriptor (createSyntheticFace random) = map (\<lambda>i. random i * (1 / 2) + 1 / 4) [0..<128]"
  by (simp add: createSyntheticFace_def Let_def fill_loop)

lemma createSyntheticFace_range:
  assumes "\<forall>i. 0 \<le> random i \<and> random i < 1"
  shows "length (f_descriptor (createSyntheticFace random)) = 128
       \<and> (\<forall>x \<in> set (f_descriptor (createSyntheticFace random)). 1 / 4 \<le> x \<and> x \<le> 3 / 4)
       \<and> f_confidence (createSyntheticFace random) = 8 / 10"
proof (intro conjI ballI)
  show "length (f_descriptor (createSyntheticFace random)) = 128"
    by (simp add: createSyntheticFace_descriptor)
  show "f_confidence (createSyntheticFace random) = 8 / 10"
    by (simp add: createSyntheticFace_def Let_def)
next
  fix x assume "x \<in> set (f_descriptor (createSyntheticFace random))"
  then obtain i where "x = random i * (1 / 2) + 1 / 4"
    by (auto simp: createSyntheticFace_descriptor)
  moreover have "0 \<le> random i" "random i < 1" using assms by auto
  ultimately show "1 / 4 \<le> x" "x \<le> 3 / 4" by auto
qed

lemma detectFaces_total:
  "isInitialized this \<Longrightarrow> \<exists>f fs. detectFaces this outcome random = Inr (f # fs)"
  by (cases outcome) (auto simp: detectFaces_def neq_Nil_conv)

text \<open>
  Claim C8, amended. On an initialized engine, when the detector raises an error, gives
  no array or gives an empty array, \<^verbatim>\<open>detectFaces\<close> returns one synthetic face: a
  descriptor of 128 components, each between 0.25 and 0.75 (the draws of
  \<^verbatim>\<open>Math.random()\<close> lie in \<open>[0, 1)\<close>), and the confidence 0.8.
\<close>

theorem detectFaces_synthetic:
  assumes "isInitialized this"
      and "outcome = Raised \<or> outcome = NoArray \<or> outcome = Detections []"
      and "\<forall>i. 0 \<le> random i \<and> random i < 1"
  shows "\<exists>f. detectFaces this outcome random = Inr [f]
           \<and> length (f_descriptor f) = 128
           \<and> (\<forall>x \<in> set (f_descriptor f). 1 / 4 \<le> x \<and> x \<le> 3 / 4)
           \<and> f_confidence f = 8 / 10"
proof -
  have "detectFaces this outcome random = Inr [createSyntheticFace random]"
    using assms(1,2) by (auto simp: detectFaces_def)
  then show ?thesis using createSyntheticFace_range [OF assms(3)] by blast
qed

theorem detectFaces_synthetic_witness:
  "isInitialized \<lparr>opts = defaultOptions, isInitialized = True\<rparr>
   \<and> (\<exists>f. detectFaces \<lparr>opts = defaultOptions, isInitialized = True\<rparr> Raised (\<lambda>i. 1 / 2) = Inr [f]
           \<and> length (f_descriptor f) = 128 \<and> f_confidence f = 8 / 10)
   \<and> (\<exists>f. detectFaces \<lparr>opts = defaultOptions, isInitialized = True\<rparr> (Detections []) (\<lambda>i. 1 / 2) = Inr [f]
           \<and> length (f_descriptor f) = 128 \<and> f_confidence f = 8 / 10)"
  using detectFaces_synthetic [of "\<lparr>opts = defaultOptions, isInitialized = True\<rparr>" Raised "\<lambda>i. 1 / 2"]
        detectFaces_synthetic [of "\<lparr>opts = defaultOptions, isInitialized = True\<rparr>" "Detections []" "\<lambda>i. 1 / 2"]
  by auto

text \<open>
  Claim C8 as stated fails on an engine that is not initialized: the guard throws,
  whatever the detector would do.
\<close>

theorem detectFaces_uninitialized_counterexample:
  "detectFaces \<lparr>opts = defaultOptions, isInitialized = False\<rparr> Raised (\<lambda>i. 1 / 2) = Inl NotInitialized
   \<and> detectFaces \<lparr>opts = defaultOptions, isInitialized = False\<rparr> (Detections []) (\<lambda>i. 1 / 2) = Inl NotInitialized"
  by (simp add: detectFaces_def)

section \<open>Range of the similarity\<close>






















section \<open>Properties of the identification loop\<close>


lemma identifyStep_eq:
  "identifyStep os cur c (bm, bs, ms) =
     (if score cur c > bs \<and> score cur c \<ge> matchThreshold os then Some (matchObject cur c) else bm,
      max bs (score cur c),
      ms @ [matchObject cur c])"
  by (simp add: identifyStep_def Let_def matchObject_def score_def max_def)

lemma identify_loop:
  "fold (identifyStep os cur) cs (bm, bs, ms) =
     (let g = Max (insert bs (score cur ` set cs)) in
      (if g > bs \<and> g \<ge> matchThreshold os
       then map_option (matchObject cur) (find (\<lambda>c. score cur c = g) cs) else bm,
       g,
       ms @ map (matchObject cur) cs))"
proof (induction cs arbitrary: bm bs ms)
  case Nil
  show ?case by simp
next
  case (Cons c cs)
  define G where "G = Max (insert bs (score cur ` set (c # cs)))"
  have g: "Max (insert (max bs (score cur c)) (score cur ` set cs)) = G"
    unfolding G_def by (cases "cs = []") (simp_all add: max.assoc max.commute max.left_commute)
  have ge: "bs \<le> G" "score cur c \<le> G"
    unfolding G_def by (rule Max_ge; simp)+
  have "fold (identifyStep os cur) (c # cs) (bm, bs, ms) =
     (if G > max bs (score cur c) \<and> G \<ge> matchThreshold os
       then map_option (matchObject cur) (find (\<lambda>c. score cur c = G) cs)
       else (if score cur c > bs \<and> score cur c \<ge> matchThreshold os then Some (matchObject cur c) else bm),
       G,
       ms @ map (matchObject cur) (c # cs))"
    unfolding fold_simps identifyStep_eq Cons.IH Let_def g by simp
  also have "\<dots> = (if G > bs \<and> G \<ge> matchThreshold os
       then map_option (matchObject cur) (find (\<lambda>c. score cur c = G) (c # cs)) else bm,
       G,
       ms @ map (matchObject cur) (c # cs))"
    using ge by (auto simp: max_def)
  finally show ?case unfolding Let_def G_def .
qed

lemma insert_cmp_key:
  "insert_cmp (\<lambda>a b. f b - f a) x ys = insort_key (\<lambda>m. - f m) x ys"
  by (induction ys) auto

lemma sort_cmp_key:
  "sort_cmp (\<lambda>a b. f b - f a) xs = sort_key (\<lambda>m. - f m) xs"
  by (induction xs) (auto simp: sort_cmp_def insert_cmp_key)

lemma slice_0_5: "slice xs 0 5 = take 5 xs"
  by (simp add: slice_def Let_def min_def)

lemma Max_attained:
  assumes "Max (insert (0::real) (f ` set cs)) > 0"
  shows "\<exists>c \<in> set cs. f c = Max (insert 0 (f ` set cs))"
proof -
  have "Max (insert 0 (f ` set cs)) \<in> insert 0 (f ` set cs)"
    by (rule Max_in) simp_all
  then show ?thesis using assms by auto
qed

lemma identifyFace_eq:
  assumes "storedFaces \<noteq> []" and "detectFaces this outcome random = Inr (cur # rest)"
  defines "S \<equiv> survivors this cur storedFaces"
  defines "g \<equiv> Max (insert 0 (score cur ` set S))"
  shows "identifyFace this outcome random storedFaces =
     Inr \<lparr>matchFound = (g > 0 \<and> g \<ge> matchThreshold (opts this)),
          bestMatch = (if g > 0 \<and> g \<ge> matchThreshold (opts this)
                       then map_option (matchObject cur) (find (\<lambda>c. score cur c = g) S) else None),
          similarity = Some g,
          candidates = take 5 (sort_key (\<lambda>m. - m_similarity m) (map (matchObject cur) S)),
          currentFace = Some \<lparr>c_descriptor = f_descriptor cur,
                               c_hash = generateHash (opts this) (f_descriptor cur),
                               c_confidence = f_confidence cur\<rparr>\<rparr>"
proof -
  have f: "g > 0 \<Longrightarrow> find (\<lambda>c. score cur c = g) S \<noteq> None"
    using Max_attained [of "score cur" S] unfolding g_def by (auto simp: find_None_iff)
  show ?thesis
    using assms(1,2) f
    by (simp add: identifyFace_def Let_def identify_loop sort_cmp_key slice_0_5
        survivors_def [symmetric] S_def [symmetric] g_def [symmetric])
qed









section \<open>The examples, evaluated\<close>

lemma probe_detected: "detectFaces readyEngine probe draws = Inr [probeFace]"
  by (simp add: detectFaces_def readyEngine_def probe_def probeFace_def)

lemma cosineSimilarity_pair: "cosineSimilarity [a1, a2] [b1, b2] =
   (if sqrt (a1 * a1 + a2 * a2) \<noteq> 0 \<and> sqrt (b1 * b1 + b2 * b2) \<noteq> 0
    then max 0 ((a1 * b1 + a2 * b2) / (sqrt (a1 * a1 + a2 * a2) * sqrt (b1 * b1 + b2 * b2))) else 0)"
  by (simp add: cosineSimilarity_def Let_def upt_rec)



lemma eightFaces_identified: "identifyFace readyEngine probe draws eightFaces =
   Inr \<lparr>matchFound = True,
        bestMatch = Some \<lparr>m_faceId = ''f2'', m_similarity = 1, m_data = ()\<rparr>,
        similarity = Some 1,
        candidates = [\<lparr>m_faceId = ''f2'', m_similarity = 1, m_data = ()\<rparr>,
                      \<lparr>m_faceId = ''f5'', m_similarity = 12 / 13, m_data = ()\<rparr>,
                      \<lparr>m_faceId = ''f8'', m_similarity = 15 / 17, m_data = ()\<rparr>,
                      \<lparr>m_faceId = ''f4'', m_similarity = 4 / 5, m_data = ()\<rparr>,
                      \<lparr>m_faceId = ''f1'', m_similarity = 3 / 5, m_data = ()\<rparr>],
        currentFace = Some \<lparr>c_descriptor = [1, 0], c_hash = ''10'', c_confidence = 9 / 10\<rparr>\<rparr>"
proof -
  have o: "opts readyEngine = defaultOptions" by (simp add: readyEngine_def)
  show ?thesis
    unfolding identifyFace_def probe_detected o
    by (simp add: probeFace_def filterByHash_def eightFaces_def
        storedFace_def identifyStep_def cosineSimilarity_pair Let_def sort_cmp_def slice_def
        generateHash_def defaultOptions_def)
qed

lemma eightFaces_result: "identifyFace readyEngine probe draws eightFaces = Inr eightResult"
  using eightFaces_identified by (simp add: eightResult_def)


section \<open>Best match\<close>




section \<open>Reported similarity\<close>




section \<open>Ranked candidates\<close>



section \<open>Best match and head of the ranking\<close>



section \<open>The stored faces are left as they are\<close>

lemma facesAt_push: "facesAt (push m x h) c = facesAt h c"
  by (auto simp: facesAt_def push_def split: option.splits jsarray.splits)

lemma push_match:
  "arrays h m = Some (MatchArray ms) \<Longrightarrow>
   push m x h = h\<lparr>arrays := (arrays h)(m \<mapsto> MatchArray (ms @ [x]))\<rparr>"
  by (simp add: push_def)

lemma facesAt_upd_match:
  "arrays h m = Some (MatchArray ms) \<Longrightarrow>
   facesAt (h\<lparr>arrays := (arrays h)(m \<mapsto> MatchArray ms')\<rparr>) c = facesAt h c"
  by (auto simp: facesAt_def)

lemma identifyLoop_fold:
  assumes "arrays h m = Some (MatchArray ms)"
  shows "identifyLoop os cur c m i (bm, bs) h =
     (case fold (identifyStep os cur) (drop i (facesAt h c)) (bm, bs, ms) of
        (bm', bs', ms') \<Rightarrow> ((bm', bs'), h\<lparr>arrays := (arrays h)(m \<mapsto> MatchArray ms')\<rparr>))"
  using assms
proof (induction "length (facesAt h c) - i" arbitrary: i bm bs ms h)
  case 0
  then have "\<not> i < length (facesAt h c)" by simp
  moreover have "h\<lparr>arrays := (arrays h)(m \<mapsto> MatchArray ms)\<rparr> = h"
    using 0(2) by (simp add: map_upd_triv)
  ultimately show ?case
    by (subst identifyLoop.simps) simp
next
  case (Suc k)
  then have lt: "i < length (facesAt h c)" by simp
  let ?cand = "facesAt h c ! i"
  let ?sim = "cosineSimilarity (f_descriptor cur) (s_descriptor ?cand)"
  let ?obj = "\<lparr>m_faceId = s_faceId ?cand, m_similarity = ?sim, m_data = s_userData ?cand\<rparr>"
  let ?h' = "h\<lparr>arrays := (arrays h)(m \<mapsto> MatchArray (ms @ [?obj]))\<rparr>"
  let ?best = "if ?sim > bs then (if ?sim \<ge> matchThreshold os then Some ?obj else bm, ?sim)
               else (bm, bs)"
  have p: "push m ?obj h = ?h'" using Suc.prems by (rule push_match)
  have f: "facesAt ?h' c = facesAt h c" using Suc.prems by (rule facesAt_upd_match)
  have k: "k = length (facesAt ?h' c) - Suc i" using Suc(2) f by simp
  have a: "arrays ?h' m = Some (MatchArray (ms @ [?obj]))" by simp
  have d: "drop i (facesAt h c) = ?cand # drop (Suc i) (facesAt h c)"
    using lt by (simp add: Cons_nth_drop_Suc)
  have "identifyLoop os cur c m i (bm, bs) h =
        identifyLoop os cur c m (Suc i) ?best ?h'"
    using lt by (subst identifyLoop.simps) (simp add: Let_def p)
  also have "\<dots> = identifyLoop os cur c m (Suc i) (fst ?best, snd ?best) ?h'"
    by simp
  also have "\<dots> = (case fold (identifyStep os cur) (drop (Suc i) (facesAt ?h' c))
                            (fst ?best, snd ?best, ms @ [?obj]) of
        (bm', bs', ms') \<Rightarrow> ((bm', bs'), ?h'\<lparr>arrays := (arrays ?h')(m \<mapsto> MatchArray ms')\<rparr>))"
    by (rule Suc(1) [OF k a])
  also have "\<dots> = (case fold (identifyStep os cur) (drop i (facesAt h c)) (bm, bs, ms) of
        (bm', bs', ms') \<Rightarrow> ((bm', bs'), h\<lparr>arrays := (arrays h)(m \<mapsto> MatchArray ms')\<rparr>))"
    unfolding f d by (simp add: identifyStep_def Let_def)
  finally show ?case .
qed

lemma filterByHashH_props:
  assumes "arrays h a = Some (FaceArray fs)" and "a < top h"
      and "filterByHashH a q t h = (c, h1)"
  shows "facesAt h1 c = filterByHash fs q t" and "c < top h1" and "top h \<le> top h1"
    and "\<forall>b < top h. arrays h1 b = arrays h b"
  using assms
  by (auto simp: filterByHashH_def filterByHash_def facesAt_def alloc_def split: if_splits)

lemma identifyFaceH_eq:
  assumes "arrays h a = Some (FaceArray storedFaces)" and "a < top h"
  shows "\<exists>h'. identifyFaceH this outcome random a h
              = map_sum id (\<lambda>res. (res, h')) (identifyFace this outcome random storedFaces)
            \<and> (\<forall>b < top h. arrays h' b = arrays h b)"
proof (cases "storedFaces = []")
  case True
  then show ?thesis using assms
    by (auto simp: identifyFaceH_def identifyFace_def facesAt_def alloc_def matchesAt_def)
next
  case ne: False
  have fa: "facesAt h a = storedFaces" using assms(1) by (simp add: facesAt_def)
  show ?thesis
  proof (cases "detectFaces this outcome random")
    case (Inl e)
    then show ?thesis using ne fa by (auto simp: identifyFaceH_def identifyFace_def)
  next
    case (Inr faces)
    show ?thesis
    proof (cases faces)
      case Nil
      then show ?thesis using ne fa Inr by (auto simp: identifyFaceH_def identifyFace_def)
    next
      case (Cons cur rest)
      define q where "q = generateHash (opts this) (f_descriptor cur)"
      obtain c h1 where fh: "filterByHashH a q 8 h = (c, h1)" by (cases "filterByHashH a q 8 h")
      note fp = filterByHashH_props [OF assms fh]
      define m where "m = top h1"
      define h2 where "h2 = h1\<lparr>arrays := (arrays h1)(m \<mapsto> MatchArray []), top := Suc m\<rparr>"
      have al: "alloc (MatchArray []) h1 = (m, h2)" by (simp add: alloc_def m_def h2_def)
      have am: "arrays h2 m = Some (MatchArray [])" by (simp add: h2_def)
      have cm: "c \<noteq> m" using fp(2) by (simp add: m_def)
      have f2: "facesAt h2 c = filterByHash storedFaces q 8"
        using fp(1) cm by (simp add: facesAt_def h2_def)
      obtain bm bs ms where fo:
        "fold (identifyStep (opts this) cur) (filterByHash storedFaces q 8) (None, 0, []) = (bm, bs, ms)"
        by (cases "fold (identifyStep (opts this) cur) (filterByHash storedFaces q 8) (None, 0, [])")
      define h3 where "h3 = h2\<lparr>arrays := (arrays h2)(m \<mapsto> MatchArray ms)\<rparr>"
      have lo: "identifyLoop (opts this) cur c m 0 (None, 0) h2 = ((bm, bs), h3)"
        by (simp add: identifyLoop_fold [OF am] f2 fo h3_def)
      let ?cmp = "\<lambda>a b :: 'a match. m_similarity b - m_similarity a"
      define h4 where "h4 = h3\<lparr>arrays := (arrays h3)(m \<mapsto> MatchArray (sort_cmp ?cmp ms))\<rparr>"
      have so: "sortAt ?cmp m h3 = h4" by (simp add: sortAt_def h3_def h4_def)
      define h5 where "h5 = h4\<lparr>arrays := (arrays h4)(top h4 \<mapsto> MatchArray (slice (sort_cmp ?cmp ms) 0 5)),
                                top := Suc (top h4)\<rparr>"
      have sl: "sliceAt m 0 5 h4 = (top h4, h5)"
        by (simp add: sliceAt_def alloc_def matchesAt_def h4_def h5_def)
      have m5: "matchesAt h5 (top h4) = slice (sort_cmp ?cmp ms) 0 5"
        by (simp add: matchesAt_def h5_def)
      have t4: "top h4 = Suc m" by (simp add: h4_def h3_def h2_def)
      have frame: "\<forall>b < top h. arrays h5 b = arrays h b"
        using fp(3,4) by (auto simp: h5_def t4 h4_def h3_def h2_def m_def)
      have "identifyFaceH this outcome random a h
              = map_sum id (\<lambda>res. (res, h5)) (identifyFace this outcome random storedFaces)"
        using ne
        by (simp add: identifyFaceH_def identifyFace_def fa Inr Cons q_def [symmetric] fh al lo so sl m5 fo)
      then show ?thesis using frame by blast
    qed
  qed
qed

text \<open>
  Claim C9. Let the address \<open>a\<close> hold the array of stored faces, allocated before the
  call. A call of \<^verbatim>\<open>identifyFace\<close> on \<open>a\<close> returns whenever the engine is initialized
  or the array is empty; when it returns, the store it leaves holds the same array at
  \<open>a\<close>, with the same records in the same order, and every array allocated before the
  call is as it was: the loop pushes to, and the sort reorders, a new array only. The
  result is the result of \<open>identifyFace\<close> on the list of stored faces.
\<close>

theorem identifyFaceH_frame:
  assumes "arrays h a = Some (FaceArray storedFaces)" and "a < top h"
  shows "(isInitialized this \<or> storedFaces = [] \<longrightarrow>
            (\<exists>res h'. identifyFaceH this outcome random a h = Inr (res, h')))
       \<and> (\<forall>res h'. identifyFaceH this outcome random a h = Inr (res, h') \<longrightarrow>
              arrays h' a = Some (FaceArray storedFaces)
            \<and> (\<forall>b < top h. arrays h' b = arrays h b)
            \<and> identifyFace this outcome random storedFaces = Inr res)"
proof -
  obtain h0 where eq: "identifyFaceH this outcome random a h
              = map_sum id (\<lambda>res. (res, h0)) (identifyFace this outcome random storedFaces)"
     and fr: "\<forall>b < top h. arrays h0 b = arrays h b"
    using identifyFaceH_eq [OF assms] by blast
  have ret: "\<exists>res. identifyFace this outcome random storedFaces = Inr res"
    if ini: "isInitialized this \<or> storedFaces = []"
  proof (cases "storedFaces = []")
    case True
    then show ?thesis by (simp add: identifyFace_def)
  next
    case False
    then have i: "isInitialized this" using ini by simp
    obtain cur rest where "detectFaces this outcome random = Inr (cur # rest)"
      using detectFaces_total [OF i] by blast
    then show ?thesis using identifyFace_eq [OF False] by blast
  qed
  have A: "\<exists>res h'. identifyFaceH this outcome random a h = Inr (res, h')"
    if ini: "isInitialized this \<or> storedFaces = []"
  proof -
    obtain res where "identifyFace this outcome random storedFaces = Inr res"
      using ret ini by blast
    then show ?thesis using eq by simp
  qed
  have B: "arrays h' a = Some (FaceArray storedFaces)
            \<and> (\<forall>b < top h. arrays h' b = arrays h b)
            \<and> identifyFace this outcome random storedFaces = Inr res"
    if r: "identifyFaceH this outcome random a h = Inr (res, h')" for res h'
  proof -
    have 1: "identifyFace this outcome random storedFaces = Inr res" and 2: "h' = h0"
      using eq r by (cases "identifyFace this outcome random storedFaces"; simp)+
    show ?thesis using 1 2 fr assms by simp
  qed
  show ?thesis using A B by blast
qed

theorem identifyFaceH_frame_witness:
  "arrays exampleHeap 0 = Some (FaceArray eightFaces) \<and> 0 < top exampleHeap
   \<and> isInitialized readyEngine
   \<and> (\<exists>h'. identifyFaceH readyEngine probe draws 0 exampleHeap = Inr (eightResult, h')
          \<and> arrays h' 0 = Some (FaceArray eightFaces))"
proof -
  have a: "arrays exampleHeap 0 = Some (FaceArray eightFaces)" by (simp add: exampleHeap_def)
  have t: "0 < top exampleHeap" by (simp add: exampleHeap_def)
  have i: "isInitialized readyEngine" by (simp add: readyEngine_def)
  note th = identifyFaceH_frame [OF a t, of readyEngine probe draws]
  obtain res h' where r: "identifyFaceH readyEngine probe draws 0 exampleHeap = Inr (res, h')"
    using th i by blast
  then have "arrays h' 0 = Some (FaceArray eightFaces)"
    and "identifyFace readyEngine probe draws eightFaces = Inr res"
    using th by blast+
  then have "res = eightResult" using eightFaces_result by simp
  then show ?thesis using a t i r \<open>arrays h' 0 = Some (FaceArray eightFaces)\<close> by blast
qed

end
